theory Spec2Isabelle
  imports Main "HOL-Library.Word"
begin

section \<open>The state machine (loopforge/states.py)\<close>

subsection \<open>States and the transition table\<close>

text \<open>
  \<^verbatim>\<open>class LoopState(str, Enum)\<close>: ten members, each with a string value.
\<close>

datatype LoopState =
    ISSUE_CREATED | TASK_QUEUED | PR_CREATED | CI_PENDING | CI_PASSED
  | CI_FAILED | AWAITING_REVIEW | APPROVED | MERGED | CLOSED

text \<open>The \<^verbatim>\<open>.value\<close> of a member.\<close>

fun state_value :: "LoopState \<Rightarrow> string" where
  "state_value ISSUE_CREATED = ''issue_created''"
| "state_value TASK_QUEUED = ''task_queued''"
| "state_value PR_CREATED = ''pr_created''"
| "state_value CI_PENDING = ''ci_pending''"
| "state_value CI_PASSED = ''ci_passed''"
| "state_value CI_FAILED = ''ci_failed''"
| "state_value AWAITING_REVIEW = ''awaiting_review''"
| "state_value APPROVED = ''approved''"
| "state_value MERGED = ''merged''"
| "state_value CLOSED = ''closed''"

text \<open>The members in definition order (what iterating the enum yields).\<close>

definition all_states :: "LoopState list" where
  "all_states = [ISSUE_CREATED, TASK_QUEUED, PR_CREATED, CI_PENDING, CI_PASSED,
                 CI_FAILED, AWAITING_REVIEW, APPROVED, MERGED, CLOSED]"

text \<open>
  A Python \<^verbatim>\<open>dict\<close> is kept as an association list in insertion order;
  \<^verbatim>\<open>d.get(k, default)\<close> reads it.
\<close>

type_synonym ('k, 'v) dict = "('k \<times> 'v) list"

definition dict_get :: "('k, 'v) dict \<Rightarrow> 'k \<Rightarrow> 'v \<Rightarrow> 'v" where
  "dict_get d k dflt = (case map_of d k of None \<Rightarrow> dflt | Some v \<Rightarrow> v)"

definition VALID_TRANSITIONS :: "(LoopState, LoopState list) dict" where
  "VALID_TRANSITIONS =
    [(ISSUE_CREATED, [TASK_QUEUED]),
     (TASK_QUEUED, [PR_CREATED]),
     (PR_CREATED, [CI_PENDING]),
     (CI_PENDING, [CI_PASSED, CI_FAILED]),
     (CI_PASSED, [MERGED, AWAITING_REVIEW]),
     (CI_FAILED, [CI_PENDING]),
     (AWAITING_REVIEW, [APPROVED, CI_PENDING]),
     (APPROVED, [MERGED]),
     (MERGED, [CLOSED]),
     (CLOSED, [])]"

subsection \<open>Values of type Any, transitions and records\<close>

text \<open>
  The free-form \<^verbatim>\<open>metadata: dict[str, Any]\<close> holds JSON-like values: null, booleans,
  integers, strings, lists and string-keyed dicts.
\<close>

datatype jval =
    JNull | JBool bool | JInt int | JStr string
  | JList "jval list" | JDict "(string \<times> jval) list"

record LoopTransition =
  from_state :: "string option"
  to_state :: string
  trigger :: string
  timestamp :: string
  metadata :: "(string, jval) dict"

record LoopRecord =
  record_id :: string
  ref :: string
  ref_number :: "int option"
  repo :: "string option"
  pr_url :: "string option"
  pr_number :: "int option"
  state :: LoopState
  auto_merge :: bool
  ci_status :: "(string, string) dict"
  transitions :: "LoopTransition list"
  labels :: "(string, string) dict"
  created_at :: string
  updated_at :: string
  closed_at :: "string option"

text \<open>
  \<^verbatim>\<open>x or {}\<close> on an optional dict: \<^verbatim>\<open>None\<close> and the empty dict are both falsy and give
  a fresh empty dict.
\<close>

definition or_empty :: "('k, 'v) dict option \<Rightarrow> ('k, 'v) dict" where
  "or_empty x = (case x of None \<Rightarrow> [] | Some d \<Rightarrow> if d = [] then [] else d)"

text \<open>
  Two inputs come from outside the program. \<^verbatim>\<open>_now()\<close> reads the UTC clock: an
  operation is given \<open>now :: nat \<Rightarrow> string\<close>, and its \<open>k\<close>-th call of \<^verbatim>\<open>_now()\<close>
  (counted from 0) returns \<open>now k\<close>. \<^verbatim>\<open>uuid4()\<close> draws a 128-bit value; \<^verbatim>\<open>.hex\<close> prints
  it as 32 lowercase hexadecimal digits, most significant first (the standard library's
  \<^verbatim>\<open>'%032x' % self.int\<close>).
\<close>

definition hexdigits :: string where
  "hexdigits = ''0123456789abcdef''"

definition uuid_hex :: "128 word \<Rightarrow> string" where
  "uuid_hex u = map (\<lambda>k. hexdigits ! ((unat u div 16 ^ (31 - k)) mod 16)) [0..<32]"

text \<open>
  The keyword arguments of the \<^verbatim>\<open>LoopRecord(...)\<close> constructor. Only \<^verbatim>\<open>ref\<close> is
  required; \<open>None\<close> stands for an argument that is not supplied (for the
  \<^verbatim>\<open>Optional\<close> fields, whose default is \<^verbatim>\<open>None\<close>, supplying \<^verbatim>\<open>None\<close> is the same).
\<close>

record LoopRecord_kwargs =
  kw_record_id :: "string option"
  kw_ref :: string
  kw_ref_number :: "int option"
  kw_repo :: "string option"
  kw_pr_url :: "string option"
  kw_pr_number :: "int option"
  kw_state :: "LoopState option"
  kw_auto_merge :: "bool option"
  kw_ci_status :: "(string, string) dict option"
  kw_transitions :: "LoopTransition list option"
  kw_labels :: "(string, string) dict option"
  kw_created_at :: "string option"
  kw_updated_at :: "string option"
  kw_closed_at :: "string option"

definition only_ref :: "string \<Rightarrow> LoopRecord_kwargs" where
  "only_ref r =
    \<lparr>kw_record_id = None, kw_ref = r, kw_ref_number = None, kw_repo = None,
     kw_pr_url = None, kw_pr_number = None, kw_state = None, kw_auto_merge = None,
     kw_ci_status = None, kw_transitions = None, kw_labels = None,
     kw_created_at = None, kw_updated_at = None, kw_closed_at = None\<rparr>"

text \<open>
  The constructor fills every field that is not supplied from its \<^verbatim>\<open>Field\<close> default
  or default factory. The factories of \<^verbatim>\<open>created_at\<close> and \<^verbatim>\<open>updated_at\<close> read the
  clock (readings 0 and 1).
\<close>

definition LoopRecord_init :: "LoopRecord_kwargs \<Rightarrow> 128 word \<Rightarrow> (nat \<Rightarrow> string) \<Rightarrow> LoopRecord" where
  "LoopRecord_init kw uuid4 now =
    \<lparr>record_id = (case kw_record_id kw of None \<Rightarrow> ''loop-'' @ take 8 (uuid_hex uuid4) | Some v \<Rightarrow> v),
     ref = kw_ref kw,
     ref_number = kw_ref_number kw,
     repo = kw_repo kw,
     pr_url = kw_pr_url kw,
     pr_number = kw_pr_number kw,
     state = (case kw_state kw of None \<Rightarrow> ISSUE_CREATED | Some v \<Rightarrow> v),
     auto_merge = (case kw_auto_merge kw of None \<Rightarrow> False | Some v \<Rightarrow> v),
     ci_status = (case kw_ci_status kw of None \<Rightarrow> [] | Some v \<Rightarrow> v),
     transitions = (case kw_transitions kw of None \<Rightarrow> [] | Some v \<Rightarrow> v),
     labels = (case kw_labels kw of None \<Rightarrow> [] | Some v \<Rightarrow> v),
     created_at = (case kw_created_at kw of None \<Rightarrow> now 0 | Some v \<Rightarrow> v),
     updated_at = (case kw_updated_at kw of None \<Rightarrow> now 1 | Some v \<Rightarrow> v),
     closed_at = kw_closed_at kw\<rparr>"

subsection \<open>Operations of a record\<close>

definition can_transition_to :: "LoopRecord \<Rightarrow> LoopState \<Rightarrow> bool" where
  "can_transition_to self new_state \<longleftrightarrow>
     new_state \<in> set (dict_get VALID_TRANSITIONS (state self) [])"

text \<open>
  \<^verbatim>\<open>transition_to\<close> mutates the record in place and returns a bool; here it returns
  the bool and the record after the call. Clock readings: 0 for the new entry's
  timestamp, 1 for \<^verbatim>\<open>updated_at\<close>, 2 for \<^verbatim>\<open>closed_at\<close>.
\<close>

definition transition_to ::
  "LoopRecord \<Rightarrow> LoopState \<Rightarrow> string \<Rightarrow> (string, jval) dict option \<Rightarrow> (nat \<Rightarrow> string)
     \<Rightarrow> bool \<times> LoopRecord" where
  "transition_to self new_state trig md now =
    (if \<not> can_transition_to self new_state then (False, self)
     else
       let self1 = self\<lparr>transitions := transitions self @
                      [\<lparr>from_state = Some (state_value (state self)),
                        to_state = state_value new_state,
                        trigger = trig,
                        timestamp = now 0,
                        metadata = or_empty md\<rparr>]\<rparr>;
           self2 = self1\<lparr>state := new_state\<rparr>;
           self3 = self2\<lparr>updated_at := now 1\<rparr>;
           self4 = (if new_state = CLOSED then self3\<lparr>closed_at := Some (now 2)\<rparr> else self3)
       in (True, self4))"

text \<open>
  The factory. \<^verbatim>\<open>repo\<close> is \<^verbatim>\<open>Optional[str]\<close>, so the metadata entry is a string or
  null. Clock readings 0 and 1 go to the constructor, 2 to the synthetic entry.
\<close>

definition create_record ::
  "string \<Rightarrow> int option \<Rightarrow> string option \<Rightarrow> bool \<Rightarrow> (string, string) dict option
     \<Rightarrow> 128 word \<Rightarrow> (nat \<Rightarrow> string) \<Rightarrow> LoopRecord" where
  "create_record ref_arg ref_number_arg repo_arg auto_merge_arg labels_arg uuid4 now =
    (let record = LoopRecord_init
           ((only_ref ref_arg)\<lparr>kw_ref_number := ref_number_arg, kw_repo := repo_arg,
              kw_auto_merge := Some auto_merge_arg, kw_labels := Some (or_empty labels_arg)\<rparr>)
           uuid4 now
     in record\<lparr>transitions := transitions record @
           [\<lparr>from_state = None,
             to_state = state_value ISSUE_CREATED,
             trigger = ''created'',
             timestamp = now 2,
             metadata = [(''ref'', JStr ref_arg),
                         (''repo'', case repo_arg of None \<Rightarrow> JNull | Some s \<Rightarrow> JStr s)]\<rparr>]\<rparr>)"

text \<open>
  A caller that holds a record and mutates it only through \<^verbatim>\<open>transition_to\<close>: each call
  has its own target, trigger, metadata and clock readings; the returned bool is dropped.
\<close>

type_synonym call = "LoopState \<times> string \<times> (string, jval) dict option \<times> (nat \<Rightarrow> string)"

fun apply_calls :: "LoopRecord \<Rightarrow> call list \<Rightarrow> LoopRecord" where
  "apply_calls r [] = r"
| "apply_calls r ((s, trig, md, now) # cs) = apply_calls (snd (transition_to r s trig md now)) cs"

text \<open>The invariants that section 3 of the specification lists for a record.\<close>

definition closed_reached :: "LoopRecord \<Rightarrow> bool" where
  "closed_reached r \<longleftrightarrow> state_value CLOSED \<in> to_state ` set (transitions r)"

definition history_ok :: "LoopRecord \<Rightarrow> bool" where
  "history_ok r \<longleftrightarrow>
     transitions r \<noteq> [] \<and>
     to_state (last (transitions r)) = state_value (state r)"

text \<open>What every call of \<^verbatim>\<open>transition_to\<close> preserves.\<close>

definition record_inv :: "LoopRecord \<Rightarrow> bool" where
  "record_inv r \<longleftrightarrow>
     history_ok r \<and>
     (closed_at r \<noteq> None \<longleftrightarrow> state r = CLOSED) \<and>
     (closed_reached r \<longleftrightarrow> state r = CLOSED)"

subsection \<open>Serialisation\<close>

text \<open>
  \<^verbatim>\<open>d[k] = v\<close> on a dict: an existing key keeps its position, a new key is appended.
\<close>

definition dict_set :: "('k, 'v) dict \<Rightarrow> 'k \<Rightarrow> 'v \<Rightarrow> ('k, 'v) dict" where
  "dict_set d k v =
     (if k \<in> fst ` set d then map (\<lambda>(k', v'). if k' = k then (k', v) else (k', v')) d
      else d @ [(k, v)])"

text \<open>
  \<^verbatim>\<open>to_dict\<close> and \<^verbatim>\<open>from_dict\<close> delegate to pydantic's \<^verbatim>\<open>model_dump(mode="json")\<close> and
  \<^verbatim>\<open>model_validate\<close>, which are library code. They are modelled on plain JSON-like
  values as the library documents them: the dump lists the fields in declaration
  order, an enum member as its value, \<^verbatim>\<open>None\<close> as null, nested models as dicts.
\<close>

definition dump_opt_str :: "string option \<Rightarrow> jval" where
  "dump_opt_str x = (case x of None \<Rightarrow> JNull | Some s \<Rightarrow> JStr s)"

definition dump_opt_int :: "int option \<Rightarrow> jval" where
  "dump_opt_int x = (case x of None \<Rightarrow> JNull | Some i \<Rightarrow> JInt i)"

definition dump_str_dict :: "(string, string) dict \<Rightarrow> jval" where
  "dump_str_dict d = JDict (map (\<lambda>(k, v). (k, JStr v)) d)"

definition LoopTransition_dump :: "LoopTransition \<Rightarrow> jval" where
  "LoopTransition_dump t =
     JDict [(''from_state'', dump_opt_str (from_state t)),
            (''to_state'', JStr (to_state t)),
            (''trigger'', JStr (trigger t)),
            (''timestamp'', JStr (timestamp t)),
            (''metadata'', JDict (metadata t))]"

definition model_dump :: "LoopRecord \<Rightarrow> (string, jval) dict" where
  "model_dump self =
     [(''record_id'', JStr (record_id self)),
      (''ref'', JStr (ref self)),
      (''ref_number'', dump_opt_int (ref_number self)),
      (''repo'', dump_opt_str (repo self)),
      (''pr_url'', dump_opt_str (pr_url self)),
      (''pr_number'', dump_opt_int (pr_number self)),
      (''state'', JStr (state_value (state self))),
      (''auto_merge'', JBool (auto_merge self)),
      (''ci_status'', dump_str_dict (ci_status self)),
      (''transitions'', JList (map LoopTransition_dump (transitions self))),
      (''labels'', dump_str_dict (labels self)),
      (''created_at'', JStr (created_at self)),
      (''updated_at'', JStr (updated_at self)),
      (''closed_at'', dump_opt_str (closed_at self))]"

definition to_dict :: "LoopRecord \<Rightarrow> (string, jval) dict" where
  "to_dict self =
     (let data = model_dump self
      in dict_set data ''state'' (JStr (state_value (state self))))"

text \<open>
  Validation. A key that is absent takes the field's default; keys that name no field
  are ignored; a value of the wrong JSON type is a validation error. (The library's
  lax mode would also coerce some values of another type, such as a numeric string for
  an integer field; those inputs are validation errors here. Nothing that \<^verbatim>\<open>to_dict\<close>
  produces needs a coercion.)
\<close>

datatype py_error = ValidationError

fun as_str :: "jval \<Rightarrow> string option" where
  "as_str (JStr s) = Some s"
| "as_str _ = None"

fun as_opt_str :: "jval \<Rightarrow> string option option" where
  "as_opt_str JNull = Some None"
| "as_opt_str (JStr s) = Some (Some s)"
| "as_opt_str _ = None"

fun as_opt_int :: "jval \<Rightarrow> int option option" where
  "as_opt_int JNull = Some None"
| "as_opt_int (JInt i) = Some (Some i)"
| "as_opt_int _ = None"

fun as_bool :: "jval \<Rightarrow> bool option" where
  "as_bool (JBool b) = Some b"
| "as_bool _ = None"

fun as_state :: "jval \<Rightarrow> LoopState option" where
  "as_state (JStr s) = find (\<lambda>st. state_value st = s) all_states"
| "as_state _ = None"

fun as_dict :: "jval \<Rightarrow> (string, jval) dict option" where
  "as_dict (JDict d) = Some d"
| "as_dict _ = None"

fun all_some :: "'a option list \<Rightarrow> 'a list option" where
  "all_some [] = Some []"
| "all_some (None # xs) = None"
| "all_some (Some x # xs) = (case all_some xs of None \<Rightarrow> None | Some ys \<Rightarrow> Some (x # ys))"

fun as_str_dict :: "jval \<Rightarrow> (string, string) dict option" where
  "as_str_dict (JDict d) = all_some (map (\<lambda>(k, v). map_option (Pair k) (as_str v)) d)"
| "as_str_dict _ = None"

text \<open>A field read from the input dict: required, or with a default.\<close>

definition required :: "(string, jval) dict \<Rightarrow> string \<Rightarrow> (jval \<Rightarrow> 'a option) \<Rightarrow> 'a option" where
  "required d k parse = (case map_of d k of None \<Rightarrow> None | Some v \<Rightarrow> parse v)"

definition optional :: "(string, jval) dict \<Rightarrow> string \<Rightarrow> 'a \<Rightarrow> (jval \<Rightarrow> 'a option) \<Rightarrow> 'a option" where
  "optional d k dflt parse = (case map_of d k of None \<Rightarrow> Some dflt | Some v \<Rightarrow> parse v)"

text \<open>
  One transition entry; \<open>ts\<close> is the clock reading its \<^verbatim>\<open>timestamp\<close> factory would
  return.
\<close>

fun LoopTransition_validate :: "string \<Rightarrow> jval \<Rightarrow> LoopTransition option" where
  "LoopTransition_validate ts (JDict d) =
     Option.bind (optional d ''from_state'' None as_opt_str) (\<lambda>fs.
     Option.bind (required d ''to_state'' as_str) (\<lambda>tos.
     Option.bind (required d ''trigger'' as_str) (\<lambda>trg.
     Option.bind (optional d ''timestamp'' ts as_str) (\<lambda>tst.
     Option.bind (optional d ''metadata'' [] as_dict) (\<lambda>md.
       Some \<lparr>from_state = fs, to_state = tos, trigger = trg, timestamp = tst,
             metadata = md\<rparr>)))))"
| "LoopTransition_validate ts _ = None"

text \<open>
  The list of entries. The default factories read the clock where the input lacks a
  value: reading 0 is for \<^verbatim>\<open>created_at\<close>, 1 for \<^verbatim>\<open>updated_at\<close>, and \<open>2 + i\<close> for the
  timestamp of entry \<open>i\<close>.
\<close>

fun as_transitions :: "(nat \<Rightarrow> string) \<Rightarrow> jval \<Rightarrow> LoopTransition list option" where
  "as_transitions now (JList xs) =
     all_some (map (\<lambda>(i, x). LoopTransition_validate (now (2 + i)) x) (enumerate 0 xs))"
| "as_transitions now _ = None"

definition model_validate ::
  "(string, jval) dict \<Rightarrow> 128 word \<Rightarrow> (nat \<Rightarrow> string) \<Rightarrow> LoopRecord option" where
  "model_validate d uuid4 now =
     Option.bind (optional d ''record_id'' (''loop-'' @ take 8 (uuid_hex uuid4)) as_str) (\<lambda>v1.
     Option.bind (required d ''ref'' as_str) (\<lambda>v2.
     Option.bind (optional d ''ref_number'' None as_opt_int) (\<lambda>v3.
     Option.bind (optional d ''repo'' None as_opt_str) (\<lambda>v4.
     Option.bind (optional d ''pr_url'' None as_opt_str) (\<lambda>v5.
     Option.bind (optional d ''pr_number'' None as_opt_int) (\<lambda>v6.
     Option.bind (optional d ''state'' ISSUE_CREATED as_state) (\<lambda>v7.
     Option.bind (optional d ''auto_merge'' False as_bool) (\<lambda>v8.
     Option.bind (optional d ''ci_status'' [] as_str_dict) (\<lambda>v9.
     Option.bind (optional d ''transitions'' [] (as_transitions now)) (\<lambda>v10.
     Option.bind (optional d ''labels'' [] as_str_dict) (\<lambda>v11.
     Option.bind (optional d ''created_at'' (now 0) as_str) (\<lambda>v12.
     Option.bind (optional d ''updated_at'' (now 1) as_str) (\<lambda>v13.
     Option.bind (optional d ''closed_at'' None as_opt_str) (\<lambda>v14.
       Some \<lparr>record_id = v1, ref = v2, ref_number = v3, repo = v4, pr_url = v5,
             pr_number = v6, state = v7, auto_merge = v8, ci_status = v9,
             transitions = v10, labels = v11, created_at = v12, updated_at = v13,
             closed_at = v14\<rparr>))))))))))))))"

definition from_dict ::
  "(string, jval) dict \<Rightarrow> 128 word \<Rightarrow> (nat \<Rightarrow> string) \<Rightarrow> py_error + LoopRecord" where
  "from_dict data uuid4 now =
     (case model_validate data uuid4 now of None \<Rightarrow> Inl ValidationError | Some r \<Rightarrow> Inr r)"

subsection \<open>The transition graph\<close>

text \<open>
  The table read as a directed graph, the two edges that lead back to \<^verbatim>\<open>ci_pending\<close>,
  and the position of each state on the way to \<^verbatim>\<open>closed\<close>.
\<close>

definition edges :: "(LoopState \<times> LoopState) set" where
  "edges = {(s, t). t \<in> set (dict_get VALID_TRANSITIONS s [])}"

definition back_edges :: "(LoopState \<times> LoopState) set" where
  "back_edges = {(CI_FAILED, CI_PENDING), (AWAITING_REVIEW, CI_PENDING)}"

fun stage :: "LoopState \<Rightarrow> nat" where
  "stage ISSUE_CREATED = 0"
| "stage TASK_QUEUED = 1"
| "stage PR_CREATED = 2"
| "stage CI_PENDING = 3"
| "stage CI_FAILED = 4"
| "stage CI_PASSED = 4"
| "stage AWAITING_REVIEW = 5"
| "stage APPROVED = 6"
| "stage MERGED = 7"
| "stage CLOSED = 8"

text \<open>
  A walk follows edges of the table; a simple cycle is a non-empty list of distinct
  states that is a walk and has an edge from its last state back to its first.
\<close>

fun walk :: "LoopState list \<Rightarrow> bool" where
  "walk (x # y # zs) \<longleftrightarrow> (x, y) \<in> edges \<and> walk (y # zs)"
| "walk _ \<longleftrightarrow> True"

definition simple_cycle :: "LoopState list \<Rightarrow> bool" where
  "simple_cycle xs \<longleftrightarrow> xs \<noteq> [] \<and> distinct xs \<and> walk (xs @ [hd xs])"

section \<open>The transition service (loopforge/service.py, loopforge/repository.py)\<close>

text \<open>
  The service calls into code it does not own: the repository and the hooks. Such a
  call may change the world outside the service (type \<open>'w\<close>: the stored records, what a
  hook has written) and may raise. \<^verbatim>\<open>except Exception\<close> catches an \<open>Exception\<close> (kept
  with its message, \<^verbatim>\<open>str(e)\<close>); any other \<open>BaseException\<close>, such as
  \<^verbatim>\<open>KeyboardInterrupt\<close>, passes through it.
\<close>

datatype raised = Exception string | BaseException string

text \<open>
  The two methods of the \<^verbatim>\<open>Repository\<close> protocol that the service calls. \<^verbatim>\<open>save\<close>
  returns the world after the call and what it raised, if anything; \<^verbatim>\<open>get\<close> reads.
\<close>

record 'w Repository =
  save :: "LoopRecord \<Rightarrow> 'w \<Rightarrow> raised option \<times> 'w"
  get :: "string \<Rightarrow> 'w \<Rightarrow> raised + LoopRecord option"

type_synonym 'w TransitionHook =
  "LoopRecord \<Rightarrow> LoopState \<Rightarrow> LoopState \<Rightarrow> string \<Rightarrow> 'w \<Rightarrow> raised option \<times> 'w"

record 'w LoopService =
  repository :: "'w Repository"
  hooks :: "'w TransitionHook list"

record TransitionResult =
  success :: bool
  result_record :: "LoopRecord option"
  error :: "string option"
  previous_state :: "LoopState option"
  new_state :: "LoopState option"


definition add_hook :: "'w LoopService \<Rightarrow> 'w TransitionHook \<Rightarrow> 'w LoopService" where
  "add_hook self hook = self\<lparr>hooks := hooks self @ [hook]\<rparr>"





text \<open>\<^verbatim>\<open>LoopService.create\<close>: build with the factory and persist.\<close>

definition create ::
  "'w LoopService \<Rightarrow> string \<Rightarrow> int option \<Rightarrow> string option \<Rightarrow> bool
     \<Rightarrow> (string, string) dict option \<Rightarrow> 128 word \<Rightarrow> (nat \<Rightarrow> string) \<Rightarrow> 'w
     \<Rightarrow> (raised + LoopRecord) \<times> 'w" where
  "create self ref_arg ref_number_arg repo_arg auto_merge_arg labels_arg uuid4 now w =
     (let record = create_record ref_arg ref_number_arg repo_arg auto_merge_arg labels_arg uuid4 now
      in case save (repository self) record w of
           (Some e, w1) \<Rightarrow> (Inl e, w1)
         | (None, w1) \<Rightarrow> (Inr record, w1))"




section \<open>Basic facts\<close>

lemma state_value_inj: "state_value s = state_value t \<longleftrightarrow> s = t"
  by (cases s; cases t) simp_all

lemma UNIV_LoopState: "(UNIV :: LoopState set) = set all_states"
proof -
  have "s \<in> set all_states" for s
    by (cases s) (simp_all add: all_states_def)
  then show ?thesis by auto
qed

lemma table_lookup:
  "dict_get VALID_TRANSITIONS s [] = the (map_of VALID_TRANSITIONS s)"
  by (cases s) (simp_all add: dict_get_def VALID_TRANSITIONS_def)

lemma closed_value_iff [simp]:
  "state_value t = ''closed'' \<longleftrightarrow> t = CLOSED"
  "''closed'' = state_value t \<longleftrightarrow> t = CLOSED"
  by (cases t; simp)+

lemma can_transition_to_table:
  "can_transition_to r t \<longleftrightarrow>
     (\<exists>ts. map_of VALID_TRANSITIONS (state r) = Some ts \<and> t \<in> set ts)"
  by (cases "state r") (simp_all add: can_transition_to_def dict_get_def VALID_TRANSITIONS_def)

lemma transition_to_invalid:
  "\<not> can_transition_to r t \<Longrightarrow> transition_to r t trig md now = (False, r)"
  by (simp add: transition_to_def)

lemma or_empty_eq: "or_empty md = (case md of None \<Rightarrow> [] | Some m \<Rightarrow> m)"
  by (simp add: or_empty_def split: option.splits)

lemma transition_to_valid:
  "can_transition_to r t \<Longrightarrow>
   transition_to r t trig md now =
     (True, r\<lparr>transitions := transitions r @
                 [\<lparr>from_state = Some (state_value (state r)), to_state = state_value t,
                   trigger = trig, timestamp = now 0,
                   metadata = (case md of None \<Rightarrow> [] | Some m \<Rightarrow> m)\<rparr>],
              state := t, updated_at := now 1,
              closed_at := (if t = CLOSED then Some (now 2) else closed_at r)\<rparr>)"
  by (simp add: transition_to_def Let_def or_empty_eq)

lemma closed_no_egress: "can_transition_to r t \<Longrightarrow> state r \<noteq> CLOSED"
  by (auto simp: can_transition_to_def dict_get_def VALID_TRANSITIONS_def)

lemma uuid_hex_take8:
  "length (take 8 (uuid_hex u)) = 8 \<and> set (take 8 (uuid_hex u)) \<subseteq> set hexdigits"
proof -
  have "length (uuid_hex u) = 32" by (simp add: uuid_hex_def)
  moreover have "set (uuid_hex u) \<subseteq> set hexdigits"
  proof -
    have "hexdigits ! (n mod 16) \<in> set hexdigits" for n :: nat
      by (rule nth_mem) (simp add: hexdigits_def)
    then show ?thesis by (auto simp: uuid_hex_def)
  qed
  ultimately show ?thesis using set_take_subset[of 8 "uuid_hex u"] by auto
qed

lemma upt_0_8: "[0..<8] = [0, 1, 2, 3, 4, 5, 6, 7::nat]"
  by (simp add: upt_rec)

lemma uuid_hex_take8_eq:
  "take 8 (uuid_hex u) = map (\<lambda>k. hexdigits ! ((unat u div 16 ^ (31 - k)) mod 16)) [0..<8]"
  by (simp add: uuid_hex_def take_map)

lemma create_record_fields:
  "state (create_record rf rn rp am lb uuid now) = ISSUE_CREATED"
  "transitions (create_record rf rn rp am lb uuid now) =
     [\<lparr>from_state = None, to_state = ''issue_created'', trigger = ''created'',
       timestamp = now 2,
       metadata = [(''ref'', JStr rf),
                   (''repo'', case rp of None \<Rightarrow> JNull | Some s \<Rightarrow> JStr s)]\<rparr>]"
  "closed_at (create_record rf rn rp am lb uuid now) = None"
  "record_id (create_record rf rn rp am lb uuid now) = ''loop-'' @ take 8 (uuid_hex uuid)"
  by (simp_all add: create_record_def LoopRecord_init_def only_ref_def Let_def)

lemma record_inv_step: "record_inv r \<Longrightarrow> record_inv (snd (transition_to r t trig md now))"
proof (cases "can_transition_to r t")
  case False
  assume "record_inv r"
  with False show ?thesis by (simp add: transition_to_invalid)
next
  case True
  assume i: "record_inv r"
  from True have nc: "state r \<noteq> CLOSED" by (rule closed_no_egress)
  show ?thesis using i nc
    by (auto simp: transition_to_valid[OF True] record_inv_def history_ok_def
        closed_reached_def)
qed

lemma record_inv_create: "record_inv (create_record rf rn rp am lb uuid now)"
  by (simp add: create_record_fields record_inv_def history_ok_def closed_reached_def)

lemma record_inv_calls: "record_inv r \<Longrightarrow> record_inv (apply_calls r cs)"
  by (induction r cs rule: apply_calls.induct) (simp_all add: record_inv_step)

section \<open>The transition table\<close>

text \<open>
  Claim C4. The transition table has every one of the ten states as a key; the entry
  for \<^verbatim>\<open>closed\<close> is the empty list, so the state is terminal; and \<^verbatim>\<open>issue_created\<close> is in
  no state's list of targets.
\<close>

theorem table_keys_terminal_entry:
  "map fst VALID_TRANSITIONS = all_states \<and> distinct all_states \<and>
   length all_states = 10 \<and> UNIV = set all_states \<and>
   (\<forall>s. map_of VALID_TRANSITIONS s \<noteq> None) \<and>
   map_of VALID_TRANSITIONS CLOSED = Some [] \<and>
   (\<forall>s. ISSUE_CREATED \<notin> set (dict_get VALID_TRANSITIONS s []))"
proof -
  have a: "map_of VALID_TRANSITIONS s \<noteq> None" for s
    by (cases s) (simp_all add: VALID_TRANSITIONS_def)
  have b: "ISSUE_CREATED \<notin> set (dict_get VALID_TRANSITIONS s [])" for s
    by (cases s) (simp_all add: VALID_TRANSITIONS_def dict_get_def)
  show ?thesis using a b UNIV_LoopState
    by (simp add: VALID_TRANSITIONS_def all_states_def)
qed

theorem table_keys_terminal_entry_witness:
  "map_of VALID_TRANSITIONS MERGED \<noteq> None \<and>
   ISSUE_CREATED \<notin> set (dict_get VALID_TRANSITIONS MERGED []) \<and>
   map_of VALID_TRANSITIONS CLOSED = Some []"
  using table_keys_terminal_entry by blast

section \<open>Transitions of a record\<close>

text \<open>
  Claim C2. For every record and every target state, \<^verbatim>\<open>can_transition_to\<close> is true
  iff the target is in the table's entry for the record's current state; and when it is
  false, \<^verbatim>\<open>transition_to\<close> returns false and the record after the call is the record
  before it, in every field.
\<close>

theorem can_transition_to_iff_table_else_unchanged:
  "(can_transition_to r t \<longleftrightarrow>
      (\<exists>ts. map_of VALID_TRANSITIONS (state r) = Some ts \<and> t \<in> set ts)) \<and>
   (\<not> can_transition_to r t \<longrightarrow> transition_to r t trig md now = (False, r))"
  using can_transition_to_table[of r t] transition_to_invalid[of r t trig md now] by blast

theorem can_transition_to_iff_table_else_unchanged_witness:
  "\<not> can_transition_to (create_record ''issue-42'' None None False None 7 (\<lambda>k. ''t0'')) MERGED \<and>
   transition_to (create_record ''issue-42'' None None False None 7 (\<lambda>k. ''t0'')) MERGED
       ''bad'' None (\<lambda>k. ''t1'')
     = (False, create_record ''issue-42'' None None False None 7 (\<lambda>k. ''t0''))"
proof -
  have n: "\<not> can_transition_to (create_record ''issue-42'' None None False None 7 (\<lambda>k. ''t0'')) MERGED"
    by (simp add: can_transition_to_def create_record_fields dict_get_def VALID_TRANSITIONS_def)
  from n can_transition_to_iff_table_else_unchanged
    [of "create_record ''issue-42'' None None False None 7 (\<lambda>k. ''t0'')" MERGED
        "''bad''" None "\<lambda>k. ''t1''"]
  show ?thesis by blast
qed

text \<open>
  Claim C3. For every record and every target that is legal from its current state,
  \<^verbatim>\<open>transition_to\<close> returns true and changes the record in exactly this way: one entry
  is appended to \<^verbatim>\<open>transitions\<close>, from the prior state to the target, with the given
  trigger and metadata (the empty dict when none is given); \<^verbatim>\<open>state\<close> becomes the
  target; \<^verbatim>\<open>updated_at\<close> is read anew from the clock; \<^verbatim>\<open>closed_at\<close> is set when the target
  is \<^verbatim>\<open>closed\<close>.
\<close>

theorem transition_to_legal:
  "can_transition_to r t \<Longrightarrow>
   transition_to r t trig md now =
     (True, r\<lparr>transitions := transitions r @
                 [\<lparr>from_state = Some (state_value (state r)), to_state = state_value t,
                   trigger = trig, timestamp = now 0,
                   metadata = (case md of None \<Rightarrow> [] | Some m \<Rightarrow> m)\<rparr>],
              state := t, updated_at := now 1,
              closed_at := (if t = CLOSED then Some (now 2) else closed_at r)\<rparr>)"
  by (rule transition_to_valid)

theorem transition_to_legal_witness:
  "can_transition_to (create_record ''issue-42'' None None False None 7 (\<lambda>k. ''t0'')) TASK_QUEUED \<and>
   fst (transition_to (create_record ''issue-42'' None None False None 7 (\<lambda>k. ''t0''))
          TASK_QUEUED ''worker'' (Some [(''worker_id'', JStr ''w-123'')]) (\<lambda>k. ''t1'')) = True \<and>
   transitions (snd (transition_to (create_record ''issue-42'' None None False None 7 (\<lambda>k. ''t0''))
          TASK_QUEUED ''worker'' (Some [(''worker_id'', JStr ''w-123'')]) (\<lambda>k. ''t1''))) =
     [\<lparr>from_state = None, to_state = ''issue_created'', trigger = ''created'',
       timestamp = ''t0'', metadata = [(''ref'', JStr ''issue-42''), (''repo'', JNull)]\<rparr>,
      \<lparr>from_state = Some ''issue_created'', to_state = ''task_queued'', trigger = ''worker'',
       timestamp = ''t1'', metadata = [(''worker_id'', JStr ''w-123'')]\<rparr>]"
proof -
  have c: "can_transition_to (create_record ''issue-42'' None None False None 7 (\<lambda>k. ''t0'')) TASK_QUEUED"
    by (simp add: can_transition_to_def create_record_fields dict_get_def VALID_TRANSITIONS_def)
  show ?thesis
    using c transition_to_legal [OF c, of "''worker''" "Some [(''worker_id'', JStr ''w-123'')]" "\<lambda>k. ''t1''"]
    by (simp add: create_record_fields)
qed

text \<open>
  Claim C7. For every ref string (and any other arguments), \<^verbatim>\<open>create_record\<close> yields a
  record in state \<^verbatim>\<open>issue_created\<close> whose \<^verbatim>\<open>transitions\<close> has exactly one entry, with no
  \<^verbatim>\<open>from_state\<close>, \<^verbatim>\<open>to_state\<close> "issue_created", trigger "created" and metadata holding
  ref and repo; \<^verbatim>\<open>closed_at\<close> is null and the id is "loop-" followed by 8 hexadecimal
  characters.
\<close>

theorem create_record_initial:
  "state (create_record rf rn rp am lb uuid now) = ISSUE_CREATED \<and>
   transitions (create_record rf rn rp am lb uuid now) =
     [\<lparr>from_state = None, to_state = ''issue_created'', trigger = ''created'',
       timestamp = now 2,
       metadata = [(''ref'', JStr rf),
                   (''repo'', case rp of None \<Rightarrow> JNull | Some s \<Rightarrow> JStr s)]\<rparr>] \<and>
   closed_at (create_record rf rn rp am lb uuid now) = None \<and>
   (\<exists>h. record_id (create_record rf rn rp am lb uuid now) = ''loop-'' @ h \<and>
        length h = 8 \<and> set h \<subseteq> set ''0123456789abcdef'')"
  using uuid_hex_take8[of uuid]
  by (simp add: create_record_fields hexdigits_def)

theorem create_record_initial_witness:
  "record_id (create_record ''issue-42'' None None False None
       0x0123456789abcdeffedcba9876543210 (\<lambda>k. ''t0'')) = ''loop-01234567'' \<and>
   (\<exists>h. record_id (create_record ''issue-42'' None None False None
            0x0123456789abcdeffedcba9876543210 (\<lambda>k. ''t0'')) = ''loop-'' @ h \<and>
        length h = 8 \<and> set h \<subseteq> set ''0123456789abcdef'')"
proof -
  have "take 8 (uuid_hex 0x0123456789abcdeffedcba9876543210) = ''01234567''"
    by (simp add: uuid_hex_take8_eq upt_0_8 hexdigits_def)
  then have "record_id (create_record ''issue-42'' None None False None
       0x0123456789abcdeffedcba9876543210 (\<lambda>k. ''t0'')) = ''loop-01234567''"
    by (simp add: create_record_fields)
  with create_record_initial
    [of "''issue-42''" None None False None "0x0123456789abcdeffedcba9876543210" "\<lambda>k. ''t0''"]
  show ?thesis by blast
qed

text \<open>
  Claim C10. A record built by the \<^verbatim>\<open>LoopRecord\<close> constructor with only \<^verbatim>\<open>ref\<close> supplied
  has an empty \<^verbatim>\<open>transitions\<close> list, state \<^verbatim>\<open>issue_created\<close> and no \<^verbatim>\<open>closed_at\<close>: the
  constructor does not establish the invariants "history is never empty" and "state is
  the \<^verbatim>\<open>to_state\<close> of the last entry"; the factory \<^verbatim>\<open>create_record\<close> does.
\<close>

theorem constructor_leaves_history_empty:
  "transitions (LoopRecord_init (only_ref rf) uuid now) = [] \<and>
   state (LoopRecord_init (only_ref rf) uuid now) = ISSUE_CREATED \<and>
   closed_at (LoopRecord_init (only_ref rf) uuid now) = None \<and>
   \<not> history_ok (LoopRecord_init (only_ref rf) uuid now) \<and>
   history_ok (create_record rf rn rp am lb uuid now)"
  by (simp add: LoopRecord_init_def only_ref_def history_ok_def create_record_fields)

text \<open>
  Claim C1. For every record produced by \<^verbatim>\<open>create_record\<close> and then mutated only by
  calls of \<^verbatim>\<open>transition_to\<close> (any number, with any arguments), \<^verbatim>\<open>transitions\<close> is not
  empty, \<^verbatim>\<open>state\<close> is the \<^verbatim>\<open>to_state\<close> of the last entry, and \<^verbatim>\<open>closed_at\<close> is set iff
  \<^verbatim>\<open>closed\<close> has been reached (an entry into \<^verbatim>\<open>closed\<close> is in the history; this is also
  when the current state is \<^verbatim>\<open>closed\<close>).
\<close>

theorem created_record_invariants:
  "transitions (apply_calls (create_record rf rn rp am lb uuid now) cs) \<noteq> [] \<and>
   to_state (last (transitions (apply_calls (create_record rf rn rp am lb uuid now) cs)))
     = state_value (state (apply_calls (create_record rf rn rp am lb uuid now) cs)) \<and>
   (closed_at (apply_calls (create_record rf rn rp am lb uuid now) cs) \<noteq> None
      \<longleftrightarrow> closed_reached (apply_calls (create_record rf rn rp am lb uuid now) cs)) \<and>
   (closed_reached (apply_calls (create_record rf rn rp am lb uuid now) cs)
      \<longleftrightarrow> state (apply_calls (create_record rf rn rp am lb uuid now) cs) = CLOSED)"
  using record_inv_calls[OF record_inv_create, of rf rn rp am lb uuid now cs]
  by (simp add: record_inv_def history_ok_def)

theorem created_record_invariants_witness:
  "let r = apply_calls (create_record ''issue-42'' None (Some ''org/repo'') True None 0 (\<lambda>k. ''t0''))
             [(TASK_QUEUED, ''queued'', None, \<lambda>k. ''t1''),
              (PR_CREATED, ''pr.opened'', None, \<lambda>k. ''t2''),
              (CI_PENDING, ''ci.started'', None, \<lambda>k. ''t3''),
              (CLOSED, ''too.early'', None, \<lambda>k. ''t4''),
              (CI_PASSED, ''ci.passed'', None, \<lambda>k. ''t5''),
              (MERGED, ''auto.merged'', None, \<lambda>k. ''t6''),
              (CLOSED, ''issue.closed'', None, \<lambda>k. ''t7'')]
   in state r = CLOSED \<and> length (transitions r) = 7 \<and> closed_at r \<noteq> None \<and>
      closed_reached r \<and> to_state (last (transitions r)) = ''closed''"
proof -
  let ?r = "apply_calls (create_record ''issue-42'' None (Some ''org/repo'') True None 0 (\<lambda>k. ''t0''))
             [(TASK_QUEUED, ''queued'', None, \<lambda>k. ''t1''),
              (PR_CREATED, ''pr.opened'', None, \<lambda>k. ''t2''),
              (CI_PENDING, ''ci.started'', None, \<lambda>k. ''t3''),
              (CLOSED, ''too.early'', None, \<lambda>k. ''t4''),
              (CI_PASSED, ''ci.passed'', None, \<lambda>k. ''t5''),
              (MERGED, ''auto.merged'', None, \<lambda>k. ''t6''),
              (CLOSED, ''issue.closed'', None, \<lambda>k. ''t7'')]"
  have st: "state ?r = CLOSED" and len: "length (transitions ?r) = 7"
    by (simp_all add: transition_to_def can_transition_to_def create_record_fields
        dict_get_def VALID_TRANSITIONS_def Let_def)
  from created_record_invariants
    [of "''issue-42''" None "Some ''org/repo''" True None 0 "\<lambda>k. ''t0''"
        "[(TASK_QUEUED, ''queued'', None, \<lambda>k. ''t1''),
          (PR_CREATED, ''pr.opened'', None, \<lambda>k. ''t2''),
          (CI_PENDING, ''ci.started'', None, \<lambda>k. ''t3''),
          (CLOSED, ''too.early'', None, \<lambda>k. ''t4''),
          (CI_PASSED, ''ci.passed'', None, \<lambda>k. ''t5''),
          (MERGED, ''auto.merged'', None, \<lambda>k. ''t6''),
          (CLOSED, ''issue.closed'', None, \<lambda>k. ''t7'')]"]
  have "closed_at ?r \<noteq> None" and "closed_reached ?r"
    and "to_state (last (transitions ?r)) = state_value (state ?r)"
    using st by blast+
  with st len show ?thesis by (simp add: Let_def)
qed

section \<open>Serialisation round trip\<close>

lemma as_str_dict_dump: "as_str_dict (dump_str_dict d) = Some d"
proof -
  have "all_some (map (\<lambda>(k, v). map_option (Pair k) (as_str v)) (map (\<lambda>(k, v). (k, JStr v)) d))
          = Some d"
    by (induction d) auto
  then show ?thesis by (simp add: dump_str_dict_def)
qed

lemma as_opt_str_dump: "as_opt_str (dump_opt_str x) = Some x"
  by (cases x) (simp_all add: dump_opt_str_def)

lemma as_opt_int_dump: "as_opt_int (dump_opt_int x) = Some x"
  by (cases x) (simp_all add: dump_opt_int_def)

lemma find_state_value: "find (\<lambda>st. state_value st = state_value s) all_states = Some s"
  by (cases s) (simp_all add: all_states_def)

lemma LoopTransition_validate_dump: "LoopTransition_validate ts (LoopTransition_dump t) = Some t"
  by (simp add: LoopTransition_dump_def optional_def required_def as_opt_str_dump)

lemma validate_dump_all:
  "all_some (map (\<lambda>(i, x). LoopTransition_validate (f i) x)
               (enumerate k (map LoopTransition_dump ts))) = Some ts"
  by (induction ts arbitrary: k) (simp_all add: LoopTransition_validate_dump)

lemma to_dict_model_dump: "to_dict r = model_dump r"
  by (simp add: to_dict_def model_dump_def dict_set_def Let_def)

lemma model_validate_to_dict: "model_validate (to_dict r) uuid now = Some r"
  by (simp add: to_dict_model_dump model_dump_def model_validate_def optional_def required_def
      as_opt_str_dump as_opt_int_dump find_state_value as_str_dict_dump validate_dump_all)

lemma from_dict_to_dict: "from_dict (to_dict r) uuid now = Inr r"
  by (simp add: from_dict_def model_validate_to_dict)

text \<open>
  Claim C9. For every record, also one with transitions and labels, deserialising what
  \<^verbatim>\<open>to_dict\<close> produced succeeds and gives a record with the same \<^verbatim>\<open>record_id\<close>, \<^verbatim>\<open>state\<close>,
  \<^verbatim>\<open>ref\<close>, \<^verbatim>\<open>repo\<close>, \<^verbatim>\<open>labels\<close> and number of transition entries.
\<close>

theorem to_dict_from_dict_roundtrip:
  "\<exists>r'. from_dict (to_dict r) uuid now = Inr r' \<and>
        record_id r' = record_id r \<and> state r' = state r \<and> ref r' = ref r \<and>
        repo r' = repo r \<and> labels r' = labels r \<and>
        length (transitions r') = length (transitions r)"
  by (simp add: from_dict_to_dict)

theorem to_dict_from_dict_roundtrip_witness:
  "\<exists>r'. from_dict
          (to_dict (snd (transition_to
             (create_record ''test'' None (Some ''org/repo'') False (Some [(''env'', ''prod'')])
                0 (\<lambda>k. ''t0''))
             TASK_QUEUED ''t'' None (\<lambda>k. ''t1''))))
          0 (\<lambda>k. ''t2'') = Inr r' \<and>
        state r' = TASK_QUEUED \<and> ref r' = ''test'' \<and> repo r' = Some ''org/repo'' \<and>
        labels r' = [(''env'', ''prod'')] \<and> length (transitions r') = 2"
proof -
  let ?created = "create_record ''test'' None (Some ''org/repo'') False (Some [(''env'', ''prod'')])
                0 (\<lambda>k. ''t0'')"
  let ?sent = "snd (transition_to ?created TASK_QUEUED ''t'' None (\<lambda>k. ''t1''))"
  have c: "can_transition_to ?created TASK_QUEUED"
    by (simp add: can_transition_to_def create_record_fields dict_get_def VALID_TRANSITIONS_def)
  have f: "state ?sent = TASK_QUEUED" "ref ?sent = ''test''" "repo ?sent = Some ''org/repo''"
    "labels ?sent = [(''env'', ''prod'')]" "length (transitions ?sent) = 2"
    by (simp_all add: transition_to_valid[OF c] create_record_fields)
       (simp_all add: create_record_def LoopRecord_init_def only_ref_def or_empty_def)
  from to_dict_from_dict_roundtrip[of ?sent 0 "\<lambda>k. ''t2''"]
  obtain r' where r':
    "from_dict (to_dict ?sent) 0 (\<lambda>k. ''t2'') = Inr r'"
    "state r' = state ?sent" "ref r' = ref ?sent" "repo r' = repo ?sent" "labels r' = labels ?sent"
    "length (transitions r') = length (transitions ?sent)"
    by blast
  show ?thesis
    by (intro exI[of _ r'] conjI) (simp_all only: r' f)
qed

section \<open>The transition service\<close>
















section \<open>The transition graph\<close>

lemma forward_edge_stage: "(s, t) \<in> edges - back_edges \<Longrightarrow> stage s < stage t"
  by (cases s) (auto simp: edges_def back_edges_def dict_get_def VALID_TRANSITIONS_def)

lemma forward_acyclic: "acyclic (edges - back_edges)"
proof -
  have "acyclic ((edges - back_edges)\<inverse>)"
    by (rule acyclicI_order[where f = stage]) (simp add: forward_edge_stage)
  then show ?thesis by (simp only: acyclic_converse)
qed

lemma closed_reachable: "(s, CLOSED) \<in> edges\<^sup>*"
proof -
  have e: "(ISSUE_CREATED, TASK_QUEUED) \<in> edges" "(TASK_QUEUED, PR_CREATED) \<in> edges"
    "(PR_CREATED, CI_PENDING) \<in> edges" "(CI_PENDING, CI_PASSED) \<in> edges"
    "(CI_FAILED, CI_PENDING) \<in> edges" "(CI_PASSED, MERGED) \<in> edges"
    "(AWAITING_REVIEW, APPROVED) \<in> edges" "(APPROVED, MERGED) \<in> edges"
    "(MERGED, CLOSED) \<in> edges"
    by (simp_all add: edges_def dict_get_def VALID_TRANSITIONS_def)
  have m: "(MERGED, CLOSED) \<in> edges\<^sup>*" using e(9) by blast
  have ap: "(APPROVED, CLOSED) \<in> edges\<^sup>*" using e(8) m by (rule converse_rtrancl_into_rtrancl)
  have aw: "(AWAITING_REVIEW, CLOSED) \<in> edges\<^sup>*" using e(7) ap by (rule converse_rtrancl_into_rtrancl)
  have cp: "(CI_PASSED, CLOSED) \<in> edges\<^sup>*" using e(6) m by (rule converse_rtrancl_into_rtrancl)
  have pe: "(CI_PENDING, CLOSED) \<in> edges\<^sup>*" using e(4) cp by (rule converse_rtrancl_into_rtrancl)
  have cf: "(CI_FAILED, CLOSED) \<in> edges\<^sup>*" using e(5) pe by (rule converse_rtrancl_into_rtrancl)
  have pr: "(PR_CREATED, CLOSED) \<in> edges\<^sup>*" using e(3) pe by (rule converse_rtrancl_into_rtrancl)
  have tq: "(TASK_QUEUED, CLOSED) \<in> edges\<^sup>*" using e(2) pr by (rule converse_rtrancl_into_rtrancl)
  have ic: "(ISSUE_CREATED, CLOSED) \<in> edges\<^sup>*" using e(1) tq by (rule converse_rtrancl_into_rtrancl)
  show ?thesis using m ap aw cp pe cf pr tq ic by (cases s) simp_all
qed

lemma unique_predecessors:
  "(s, CI_FAILED) \<in> edges \<longleftrightarrow> s = CI_PENDING"
  "(s, CI_PASSED) \<in> edges \<longleftrightarrow> s = CI_PENDING"
  "(s, AWAITING_REVIEW) \<in> edges \<longleftrightarrow> s = CI_PASSED"
  by (cases s; simp add: edges_def dict_get_def VALID_TRANSITIONS_def)+

lemma walk_successor:
  "walk (xs @ [a]) \<Longrightarrow> x \<in> set xs \<Longrightarrow> \<exists>y \<in> set (xs @ [a]). (x, y) \<in> edges"
proof (induction xs)
  case Nil
  then show ?case by simp
next
  case (Cons u us)
  show ?case
  proof (cases us)
    case Nil
    with Cons.prems show ?thesis by simp
  next
    case (Cons v vs)
    with Cons.prems(1) have uv: "(u, v) \<in> edges" and w: "walk (us @ [a])" by simp_all
    show ?thesis
    proof (cases "x = u")
      case True
      with uv Cons show ?thesis by auto
    next
      case False
      with Cons.prems(2) have "x \<in> set us" by simp
      from Cons.IH[OF w this] show ?thesis by auto
    qed
  qed
qed

lemma cycle_has_pending:
  assumes "simple_cycle xs"
  shows "CI_PENDING \<in> set xs"
proof (rule ccontr)
  assume np: "CI_PENDING \<notin> set xs"
  from assms have ne: "xs \<noteq> []" and w: "walk (xs @ [hd xs])"
    by (simp_all add: simple_cycle_def)
  from ne have hd: "hd xs \<in> set xs" by simp
  have fin: "finite (stage ` set xs)" and nem: "stage ` set xs \<noteq> {}" using ne by simp_all
  from Max_in[OF fin nem] obtain x where x: "x \<in> set xs" and mx: "stage x = Max (stage ` set xs)"
    by auto
  from walk_successor[OF w x] hd obtain y where y: "y \<in> set xs" and e: "(x, y) \<in> edges"
    by auto
  from y np have "y \<noteq> CI_PENDING" by auto
  with e have "(x, y) \<in> edges - back_edges" by (auto simp: back_edges_def)
  then have "stage x < stage y" by (rule forward_edge_stage)
  moreover from y have "stage y \<le> Max (stage ` set xs)" by (intro Max_ge[OF fin]) simp
  ultimately show False using mx by simp
qed

lemma walk_to_pending_stage:
  "walk (x # zs @ [CI_PENDING]) \<Longrightarrow> stage x \<le> 5"
proof (induction zs arbitrary: x)
  case Nil
  then show ?case
    by (cases x) (simp_all add: edges_def dict_get_def VALID_TRANSITIONS_def)
next
  case (Cons z zs)
  then have e: "(x, z) \<in> edges" and "walk (z # zs @ [CI_PENDING])" by simp_all
  then have "stage z \<le> 5" using Cons.IH by simp
  with e show ?case
    by (cases x) (auto simp: edges_def dict_get_def VALID_TRANSITIONS_def)
qed

lemma cycles_from_pending:
  "simple_cycle (CI_PENDING # zs) \<longleftrightarrow> zs = [CI_FAILED] \<or> zs = [CI_PASSED, AWAITING_REVIEW]"
proof
  assume "zs = [CI_FAILED] \<or> zs = [CI_PASSED, AWAITING_REVIEW]"
  then show "simple_cycle (CI_PENDING # zs)"
    by (auto simp: simple_cycle_def edges_def dict_get_def VALID_TRANSITIONS_def)
next
  assume sc: "simple_cycle (CI_PENDING # zs)"
  then have d: "CI_PENDING \<notin> set zs" and w: "walk (CI_PENDING # zs @ [CI_PENDING])"
    by (simp_all add: simple_cycle_def)
  note E = edges_def dict_get_def VALID_TRANSITIONS_def
  consider (n0) "zs = []" | (c0) z1 zs1 where "zs = z1 # zs1" by (cases zs) auto
  then show "zs = [CI_FAILED] \<or> zs = [CI_PASSED, AWAITING_REVIEW]"
  proof cases
    case n0
    with w show ?thesis by (simp add: E)
  next
    case c0
    with w have e1: "(CI_PENDING, z1) \<in> edges" and w1: "walk (z1 # zs1 @ [CI_PENDING])"
      by simp_all
    from e1 have "z1 = CI_PASSED \<or> z1 = CI_FAILED" by (simp add: E)
    then show ?thesis
    proof
      assume z1: "z1 = CI_FAILED"
      consider (n1) "zs1 = []" | (c1) z2 zs2 where "zs1 = z2 # zs2" by (cases zs1) auto
      then show ?thesis
      proof cases
        case n1
        with c0 z1 show ?thesis by simp
      next
        case c1
        with w1 z1 have "(CI_FAILED, z2) \<in> edges" by simp
        then have "z2 = CI_PENDING" by (simp add: E)
        with d c0 c1 show ?thesis by simp
      qed
    next
      assume z1: "z1 = CI_PASSED"
      consider (n1) "zs1 = []" | (c1) z2 zs2 where "zs1 = z2 # zs2" by (cases zs1) auto
      then show ?thesis
      proof cases
        case n1
        with w1 z1 show ?thesis by (simp add: E)
      next
        case c1
        with w1 z1 have e2: "(CI_PASSED, z2) \<in> edges" and w2: "walk (z2 # zs2 @ [CI_PENDING])"
          by simp_all
        from walk_to_pending_stage[OF w2] have s2: "stage z2 \<le> 5" .
        from e2 have "z2 = MERGED \<or> z2 = AWAITING_REVIEW" by (simp add: E)
        with s2 have z2: "z2 = AWAITING_REVIEW" by auto
        consider (n2) "zs2 = []" | (c2) z3 zs3 where "zs2 = z3 # zs3" by (cases zs2) auto
        then show ?thesis
        proof cases
          case n2
          with c0 c1 z1 z2 show ?thesis by simp
        next
          case c2
          with w2 z2 have e3: "(AWAITING_REVIEW, z3) \<in> edges"
            and w3: "walk (z3 # zs3 @ [CI_PENDING])"
            by simp_all
          from walk_to_pending_stage[OF w3] have s3: "stage z3 \<le> 5" .
          from e3 have "z3 = APPROVED \<or> z3 = CI_PENDING" by (simp add: E)
          with s3 have "z3 = CI_PENDING" by auto
          with d c0 c1 c2 show ?thesis by simp
        qed
      qed
    qed
  qed
qed

text \<open>
  Claim C8. In the directed graph of the transition table the only cycles are the two
  closed by the edges \<^verbatim>\<open>ci_failed\<close> to \<^verbatim>\<open>ci_pending\<close> and \<^verbatim>\<open>awaiting_review\<close> to
  \<^verbatim>\<open>ci_pending\<close>. Every simple cycle passes through \<^verbatim>\<open>ci_pending\<close>, and read from there
  it is \<^verbatim>\<open>ci_pending\<close>, \<^verbatim>\<open>ci_failed\<close> or \<^verbatim>\<open>ci_pending\<close>, \<^verbatim>\<open>ci_passed\<close>, \<^verbatim>\<open>awaiting_review\<close>.
  Without the two edges the graph is acyclic, and without only one of them it is not.
  Every other edge moves to a later stage; \<^verbatim>\<open>closed\<close> is the last stage and can be
  reached from every state.
\<close>

theorem only_cycles_through_back_edges:
  "acyclic (edges - back_edges) \<and> back_edges \<subseteq> edges \<and>
   \<not> acyclic (edges - {(AWAITING_REVIEW, CI_PENDING)}) \<and>
   \<not> acyclic (edges - {(CI_FAILED, CI_PENDING)}) \<and>
   (CI_PENDING, CI_FAILED) \<in> edges \<and>
   (CI_PENDING, CI_PASSED) \<in> edges \<and> (CI_PASSED, AWAITING_REVIEW) \<in> edges \<and>
   (\<forall>s. (s, CI_FAILED) \<in> edges \<longleftrightarrow> s = CI_PENDING) \<and>
   (\<forall>s. (s, CI_PASSED) \<in> edges \<longleftrightarrow> s = CI_PENDING) \<and>
   (\<forall>s. (s, AWAITING_REVIEW) \<in> edges \<longleftrightarrow> s = CI_PASSED) \<and>
   (\<forall>s t. (s, t) \<in> edges - back_edges \<longrightarrow> stage s < stage t) \<and>
   (\<forall>s. stage s \<le> stage CLOSED) \<and>
   (\<forall>s. (s, CLOSED) \<in> edges\<^sup>*) \<and>
   (\<forall>xs. simple_cycle xs \<longrightarrow> CI_PENDING \<in> set xs) \<and>
   (\<forall>zs. simple_cycle (CI_PENDING # zs) \<longleftrightarrow>
           zs = [CI_FAILED] \<or> zs = [CI_PASSED, AWAITING_REVIEW])"
proof -
  have e: "(CI_PENDING, CI_FAILED) \<in> edges" "(CI_FAILED, CI_PENDING) \<in> edges"
    "(CI_PENDING, CI_PASSED) \<in> edges" "(CI_PASSED, AWAITING_REVIEW) \<in> edges"
    "(AWAITING_REVIEW, CI_PENDING) \<in> edges"
    by (simp_all add: edges_def dict_get_def VALID_TRANSITIONS_def)
  have sub: "back_edges \<subseteq> edges"
    using e by (simp add: back_edges_def)
  have c1: "\<not> acyclic (edges - {(AWAITING_REVIEW, CI_PENDING)})"
  proof -
    have "(CI_PENDING, CI_FAILED) \<in> edges - {(AWAITING_REVIEW, CI_PENDING)}"
      "(CI_FAILED, CI_PENDING) \<in> edges - {(AWAITING_REVIEW, CI_PENDING)}"
      using e by simp_all
    then have "(CI_PENDING, CI_PENDING) \<in> (edges - {(AWAITING_REVIEW, CI_PENDING)})\<^sup>+"
      by (meson trancl.r_into_trancl trancl_trans)
    then show ?thesis by (auto simp: acyclic_def)
  qed
  have c2: "\<not> acyclic (edges - {(CI_FAILED, CI_PENDING)})"
  proof -
    have "(CI_PENDING, CI_PASSED) \<in> edges - {(CI_FAILED, CI_PENDING)}"
      "(CI_PASSED, AWAITING_REVIEW) \<in> edges - {(CI_FAILED, CI_PENDING)}"
      "(AWAITING_REVIEW, CI_PENDING) \<in> edges - {(CI_FAILED, CI_PENDING)}"
      using e by simp_all
    then have "(CI_PENDING, CI_PENDING) \<in> (edges - {(CI_FAILED, CI_PENDING)})\<^sup>+"
      by (meson trancl.r_into_trancl trancl_trans)
    then show ?thesis by (auto simp: acyclic_def)
  qed
  have top: "stage s \<le> stage CLOSED" for s
    by (cases s) simp_all
  have u1: "\<forall>s. (s, CI_FAILED) \<in> edges \<longleftrightarrow> s = CI_PENDING"
    and u2: "\<forall>s. (s, CI_PASSED) \<in> edges \<longleftrightarrow> s = CI_PENDING"
    and u3: "\<forall>s. (s, AWAITING_REVIEW) \<in> edges \<longleftrightarrow> s = CI_PASSED"
    by (simp_all only: unique_predecessors simp_thms)
  have q1: "\<forall>s t. (s, t) \<in> edges - back_edges \<longrightarrow> stage s < stage t"
    using forward_edge_stage by blast
  have q2: "\<forall>s. stage s \<le> stage CLOSED"
    using top by blast
  have q3: "\<forall>s. (s, CLOSED) \<in> edges\<^sup>*"
    using closed_reachable by blast
  have q4: "\<forall>xs. simple_cycle xs \<longrightarrow> CI_PENDING \<in> set xs"
    using cycle_has_pending by blast
  have q5: "\<forall>zs. simple_cycle (CI_PENDING # zs) \<longleftrightarrow>
              zs = [CI_FAILED] \<or> zs = [CI_PASSED, AWAITING_REVIEW]"
    by (simp only: cycles_from_pending simp_thms)
  show ?thesis
    by (intro conjI forward_acyclic sub c1 c2 e u1 u2 u3 q1 q2 q3 q4 q5)
qed

theorem only_cycles_through_back_edges_witness:
  "(CI_PASSED, MERGED) \<in> edges - back_edges \<and> stage CI_PASSED < stage MERGED \<and>
   simple_cycle [AWAITING_REVIEW, CI_PENDING, CI_PASSED] \<and>
   CI_PENDING \<in> set [AWAITING_REVIEW, CI_PENDING, CI_PASSED]"
proof -
  have a: "(CI_PASSED, MERGED) \<in> edges - back_edges"
    by (simp add: edges_def back_edges_def dict_get_def VALID_TRANSITIONS_def)
  have b: "simple_cycle [AWAITING_REVIEW, CI_PENDING, CI_PASSED]"
    by (simp add: simple_cycle_def edges_def dict_get_def VALID_TRANSITIONS_def)
  have f: "\<forall>s t. (s, t) \<in> edges - back_edges \<longrightarrow> stage s < stage t"
    using only_cycles_through_back_edges by (elim conjE)
  have c: "\<forall>xs. simple_cycle xs \<longrightarrow> CI_PENDING \<in> set xs"
    using only_cycles_through_back_edges by (elim conjE)
  from f a have "stage CI_PASSED < stage MERGED" by blast
  moreover from c b have "CI_PENDING \<in> set [AWAITING_REVIEW, CI_PENDING, CI_PASSED]" by blast
  ultimately show ?thesis using a b by (intro conjI)
qed

end
